theory Spec2Isabelle
  imports Main "HOL-Library.Word"
begin

section \<open>JavaScript strings and values\<close>

text \<open>
  A JavaScript string is a sequence of 16-bit code units; \<open>length\<close>, \<open>trim\<close> and a
  regular expression without the \<open>u\<close> flag all work on code units.
\<close>

type_synonym code_unit = "16 word"
type_synonym js_string = "code_unit list"

definition cu :: "char \<Rightarrow> code_unit" where
  "cu c = of_char c"

definition js_str :: "string \<Rightarrow> js_string" where
  "js_str s = map cu s"

text \<open>
  The code points of the ECMAScript productions WhiteSpace and LineTerminator. Both
  \<open>String.prototype.trim\<close> and the class escape \<open>\s\<close> use exactly this set.
\<close>

definition is_white_space :: "code_unit \<Rightarrow> bool" where
  "is_white_space c \<longleftrightarrow>
     c = 0x0009 \<or> c = 0x000A \<or> c = 0x000B \<or> c = 0x000C \<or> c = 0x000D \<or> c = 0x0020 \<or>
     c = 0x00A0 \<or> c = 0x1680 \<or> (0x2000 \<le> c \<and> c \<le> 0x200A) \<or> c = 0x2028 \<or>
     c = 0x2029 \<or> c = 0x202F \<or> c = 0x205F \<or> c = 0x3000 \<or> c = 0xFEFF"

definition is_digit :: "code_unit \<Rightarrow> bool" where
  "is_digit c \<longleftrightarrow> cu CHR ''0'' \<le> c \<and> c \<le> cu CHR ''9''"

text \<open>\<open>String.prototype.trim\<close>: strip white space from both ends.\<close>

definition trim :: "js_string \<Rightarrow> js_string" where
  "trim s = rev (dropWhile is_white_space (rev (dropWhile is_white_space s)))"

text \<open>
  The validators look at their argument only through \<open>=== null\<close>, \<open>=== undefined\<close> and
  \<open>String(value)\<close>. Undefined, null, booleans and strings are modelled as they are. Every
  other value (a Number, BigInt, Symbol or Object) is represented by what \<open>String(value)\<close>
  does with it in a program state \<open>st\<close>: the conversion returns a string or throws, and it
  leaves a program state behind, since the \<open>toString\<close> or \<open>valueOf\<close> of an object is
  code of the caller, which may read and write anything and throw any value. An object
  without a usable \<open>toString\<close>/\<open>valueOf\<close>, such as \<open>Object.create(null)\<close> or the
  result of \<open>JSON.parse('{"toString":null}')\<close>, raises a TypeError. The type \<open>'s\<close> of the
  program state is a parameter.
\<close>

datatype js_exception =
    TypeError
  | RangeError
  | Thrown js_string

text \<open>\<open>Thrown d\<close> is any other thrown value, with a description \<open>d\<close> that identifies it.\<close>

datatype 's js_value =
    JUndefined
  | JNull
  | JBoolean bool
  | JString js_string
  | JOther "'s \<Rightarrow> (js_exception + js_string) \<times> 's"

fun String_of :: "'s js_value \<Rightarrow> 's \<Rightarrow> (js_exception + js_string) \<times> 's" where
  "String_of JUndefined st = (Inr (js_str ''undefined''), st)"
| "String_of JNull st = (Inr (js_str ''null''), st)"
| "String_of (JBoolean b) st = (Inr (js_str (if b then ''true'' else ''false'')), st)"
| "String_of (JString s) st = (Inr s, st)"
| "String_of (JOther f) st = f st"

section \<open>Regular expressions\<close>

text \<open>
  The fragment of the ECMAScript pattern syntax that the module uses: literal characters,
  character classes (possibly negated) with the escapes \<open>\s\<close> and \<open>\d\<close> and ranges,
  sequencing, the quantifiers \<open>+\<close> and \<open>{m,n}\<close>, and the anchors \<open>^\<close> and \<open>$\<close> at
  the two ends of the pattern.
\<close>

datatype class_atom =
    ClassChar code_unit
  | ClassRange code_unit code_unit
  | ClassSpace
  | ClassDigit

fun in_atom :: "code_unit \<Rightarrow> class_atom \<Rightarrow> bool" where
  "in_atom c (ClassChar a) = (c = a)"
| "in_atom c (ClassRange a b) = (a \<le> c \<and> c \<le> b)"
| "in_atom c ClassSpace = is_white_space c"
| "in_atom c ClassDigit = is_digit c"

datatype rx =
    Fail
  | Empty
  | Sym bool "class_atom list"
  | Alt rx rx
  | Seq rx rx
  | Star rx

text \<open>\<open>Sym neg as\<close> is the class \<open>[as]\<close>, or \<open>[^as]\<close> when \<open>neg\<close> holds.\<close>

definition in_class :: "bool \<Rightarrow> class_atom list \<Rightarrow> code_unit \<Rightarrow> bool" where
  "in_class neg as c = (list_ex (in_atom c) as \<noteq> neg)"

definition Lit :: "char \<Rightarrow> rx" where
  "Lit c = Sym False [ClassChar (cu c)]"

definition Plus :: "rx \<Rightarrow> rx" where
  "Plus r = Seq r (Star r)"

fun Power :: "nat \<Rightarrow> rx \<Rightarrow> rx" where
  "Power 0 r = Empty"
| "Power (Suc n) r = Seq r (Power n r)"

fun UpTo :: "nat \<Rightarrow> rx \<Rightarrow> rx" where
  "UpTo 0 r = Empty"
| "UpTo (Suc n) r = Alt Empty (Seq r (UpTo n r))"

text \<open>\<open>Repeat m n r\<close> is \<open>r{m,n}\<close>: at least \<open>m\<close> and at most \<open>n\<close> copies of \<open>r\<close>.\<close>

definition Repeat :: "nat \<Rightarrow> nat \<Rightarrow> rx \<Rightarrow> rx" where
  "Repeat m n r = (if m \<le> n then Seq (Power m r) (UpTo (n - m) r) else Fail)"

fun nullable :: "rx \<Rightarrow> bool" where
  "nullable Fail = False"
| "nullable Empty = True"
| "nullable (Sym neg as) = False"
| "nullable (Alt r s) = (nullable r \<or> nullable s)"
| "nullable (Seq r s) = (nullable r \<and> nullable s)"
| "nullable (Star r) = True"

fun deriv :: "code_unit \<Rightarrow> rx \<Rightarrow> rx" where
  "deriv c Fail = Fail"
| "deriv c Empty = Fail"
| "deriv c (Sym neg as) = (if in_class neg as c then Empty else Fail)"
| "deriv c (Alt r s) = Alt (deriv c r) (deriv c s)"
| "deriv c (Seq r s) =
     (if nullable r then Alt (Seq (deriv c r) s) (deriv c s) else Seq (deriv c r) s)"
| "deriv c (Star r) = Seq (deriv c r) (Star r)"

text \<open>
  A regular expression object: the pattern and whether it begins with \<open>^\<close> and ends
  with \<open>$\<close>. None of the module's expressions has a flag, so \<open>$\<close> matches at the end
  of the input only and \<open>test\<close> keeps no state between calls.
\<close>

record regexp =
  from_start :: bool
  pattern :: rx
  to_end :: bool

text \<open>
  \<open>match_here e r s\<close>: the pattern \<open>r\<close> matches at the beginning of \<open>s\<close>; with \<open>e\<close>
  the match has to use up \<open>s\<close>.
\<close>

fun match_here :: "bool \<Rightarrow> rx \<Rightarrow> js_string \<Rightarrow> bool" where
  "match_here e r [] = nullable r"
| "match_here e r (c # cs) = ((\<not> e \<and> nullable r) \<or> match_here e (deriv c r) cs)"

text \<open>\<open>search\<close> tries every start index from 0 to the length of the input.\<close>

fun search :: "bool \<Rightarrow> rx \<Rightarrow> js_string \<Rightarrow> bool" where
  "search e r [] = match_here e r []"
| "search e r (c # cs) = (match_here e r (c # cs) \<or> search e r cs)"

definition test :: "regexp \<Rightarrow> js_string \<Rightarrow> bool" where
  "test re s =
     (if from_start re then match_here (to_end re) (pattern re) s
      else search (to_end re) (pattern re) s)"

section \<open>validation.js\<close>

text \<open>\<open>/^[^\s@]+@[^\s@]+\.[^\s@]+$/\<close>\<close>

definition EMAIL_REGEX :: regexp where
  "EMAIL_REGEX =
     \<lparr>from_start = True,
      pattern =
        Seq (Plus (Sym True [ClassSpace, ClassChar (cu CHR ''@'')]))
       (Seq (Lit CHR ''@'')
       (Seq (Plus (Sym True [ClassSpace, ClassChar (cu CHR ''@'')]))
       (Seq (Lit CHR ''.'')
            (Plus (Sym True [ClassSpace, ClassChar (cu CHR ''@'')]))))),
      to_end = True\<rparr>"

text \<open>\<open>/^\+[1-9]\d{7,14}$/\<close>\<close>

definition E164_REGEX :: regexp where
  "E164_REGEX =
     \<lparr>from_start = True,
      pattern =
        Seq (Lit CHR ''+'')
       (Seq (Sym False [ClassRange (cu CHR ''1'') (cu CHR ''9'')])
            (Repeat 7 14 (Sym False [ClassDigit]))),
      to_end = True\<rparr>"

text \<open>\<open>/[!@#$%^&*()_+\-=\[\]{};':"\\|,.<>\/?]/\<close>\<close>

definition PASSWORD_SPECIAL_REGEX :: regexp where
  "PASSWORD_SPECIAL_REGEX =
     \<lparr>from_start = False,
      pattern =
        Sym False (map (\<lambda>c. ClassChar (cu c))
          [CHR ''!'', CHR ''@'', CHR ''#'', CHR ''$'', CHR ''%'', CHR ''^'', CHR ''&'',
           CHR ''*'', CHR ''('', CHR '')'', CHR ''_'', CHR ''+'', CHR ''-'', CHR ''='',
           CHR ''['', CHR '']'', CHR ''{'', CHR ''}'', CHR '';'', CHR 0x27, CHR '':'',
           CHR 0x22, CHR 0x5C, CHR ''|'', CHR '','', CHR ''.'', CHR ''<'', CHR ''>'',
           CHR ''/'', CHR ''?'']),
      to_end = False\<rparr>"

text \<open>\<open>/\d/\<close>, the expression written inline in \<open>validatePassword\<close>.\<close>

definition DIGIT_REGEX :: regexp where
  "DIGIT_REGEX = \<lparr>from_start = False, pattern = Sym False [ClassDigit], to_end = False\<rparr>"

record error_messages =
  email_format :: js_string
  password_length :: js_string
  password_number :: js_string
  password_special :: js_string
  phone_format :: js_string

definition ERROR_MESSAGES :: error_messages where
  "ERROR_MESSAGES =
     \<lparr>email_format = js_str ''Invalid email format'',
      password_length = js_str ''Password must be at least 8 characters long'',
      password_number = js_str ''Password must contain at least one number'',
      password_special = js_str ''Password must contain at least one special character'',
      phone_format = js_str ''Invalid phone number format''\<rparr>"

fun normalizeInput :: "'s js_value \<Rightarrow> 's \<Rightarrow> (js_exception + js_string) \<times> 's" where
  "normalizeInput JNull st = (Inr [], st)"
| "normalizeInput JUndefined st = (Inr [], st)"
| "normalizeInput v st =
     (case String_of v st of
        (Inl e, st') \<Rightarrow> (Inl e, st')
      | (Inr s, st') \<Rightarrow> (Inr (trim s), st'))"

record validation_result =
  valid :: bool
  errors :: "js_string list"

definition result :: "js_string list \<Rightarrow> validation_result" where
  "result es = \<lparr>valid = (length es = 0), errors = es\<rparr>"

text \<open>
  Each validator starts from an empty \<open>errors\<close> array and pushes onto it; the array is
  threaded through the checks in the order of the source. An exception raised by
  \<open>normalizeInput\<close> leaves the validator, which has no handler. A validator returns its
  result, or the exception, together with the program state the call leaves.
\<close>

definition validateEmail ::
  "'s js_value \<Rightarrow> 's \<Rightarrow> (js_exception + validation_result) \<times> 's" where
  "validateEmail v st =
     (case normalizeInput v st of
        (Inl e, st') \<Rightarrow> (Inl e, st')
      | (Inr s, st') \<Rightarrow>
          (let errs0 = [];
               errs1 = (if \<not> test EMAIL_REGEX s
                        then errs0 @ [email_format ERROR_MESSAGES] else errs0)
           in (Inr (result errs1), st')))"

definition validatePassword ::
  "'s js_value \<Rightarrow> 's \<Rightarrow> (js_exception + validation_result) \<times> 's" where
  "validatePassword v st =
     (case normalizeInput v st of
        (Inl e, st') \<Rightarrow> (Inl e, st')
      | (Inr s, st') \<Rightarrow>
          (let errs0 = [];
               errs1 = (if length s < 8
                        then errs0 @ [password_length ERROR_MESSAGES] else errs0);
               errs2 = (if \<not> test DIGIT_REGEX s
                        then errs1 @ [password_number ERROR_MESSAGES] else errs1);
               errs3 = (if \<not> test PASSWORD_SPECIAL_REGEX s
                        then errs2 @ [password_special ERROR_MESSAGES] else errs2)
           in (Inr (result errs3), st')))"

definition validatePhone ::
  "'s js_value \<Rightarrow> 's \<Rightarrow> (js_exception + validation_result) \<times> 's" where
  "validatePhone v st =
     (case normalizeInput v st of
        (Inl e, st') \<Rightarrow> (Inl e, st')
      | (Inr s, st') \<Rightarrow>
          (let errs0 = [];
               errs1 = (if \<not> test E164_REGEX s
                        then errs0 @ [phone_format ERROR_MESSAGES] else errs0)
           in (Inr (result errs1), st')))"

section \<open>The language of a pattern\<close>

text \<open>
  The set of strings a pattern denotes. The matcher above is the executable side; the
  lemmas of the next sections relate the two.
\<close>

definition conc :: "js_string set \<Rightarrow> js_string set \<Rightarrow> js_string set" where
  "conc A B = {a @ b | a b. a \<in> A \<and> b \<in> B}"

inductive_set star :: "js_string set \<Rightarrow> js_string set" for A :: "js_string set" where
  star_nil: "[] \<in> star A"
| star_app: "a \<in> A \<Longrightarrow> w \<in> star A \<Longrightarrow> a @ w \<in> star A"

fun lang :: "rx \<Rightarrow> js_string set" where
  "lang Fail = {}"
| "lang Empty = {[]}"
| "lang (Sym neg as) = {[c] | c. in_class neg as c}"
| "lang (Alt r s) = lang r \<union> lang s"
| "lang (Seq r s) = conc (lang r) (lang s)"
| "lang (Star r) = star (lang r)"

section \<open>The rules in the words of the specification\<close>

text \<open>A non-whitespace character other than \<open>@\<close>.\<close>

definition email_char :: "code_unit \<Rightarrow> bool" where
  "email_char c \<longleftrightarrow> \<not> is_white_space c \<and> c \<noteq> cu CHR ''@''"

text \<open>
  One or more such characters, then \<open>@\<close>, then one or more, then \<open>.\<close>, then one or
  more.
\<close>

definition spec_email_shape :: "js_string \<Rightarrow> bool" where
  "spec_email_shape s \<longleftrightarrow>
     (\<exists>a b c. s = a @ [cu CHR ''@''] @ b @ [cu CHR ''.''] @ c \<and>
        a \<noteq> [] \<and> b \<noteq> [] \<and> c \<noteq> [] \<and>
        (\<forall>x \<in> set a. email_char x) \<and> (\<forall>x \<in> set b. email_char x) \<and>
        (\<forall>x \<in> set c. email_char x))"

text \<open>
  A leading \<open>+\<close>, a first digit in 1 to 9, then between 7 and 14 further digits, and
  nothing else.
\<close>

definition spec_phone_shape :: "js_string \<Rightarrow> bool" where
  "spec_phone_shape s \<longleftrightarrow>
     (\<exists>d ds. s = cu CHR ''+'' # d # ds \<and> cu CHR ''1'' \<le> d \<and> d \<le> cu CHR ''9'' \<and>
        7 \<le> length ds \<and> length ds \<le> 14 \<and> (\<forall>x \<in> set ds. is_digit x))"

text \<open>The whitelist of special characters, as the specification lists it.\<close>

definition spec_special_chars :: "code_unit set" where
  "spec_special_chars =
     {cu CHR ''!'', cu CHR ''@'', cu CHR ''#'', cu CHR ''$'', cu CHR ''%'', cu CHR ''^'',
      cu CHR ''&'', cu CHR ''*'', cu CHR ''('', cu CHR '')'', cu CHR ''_'', cu CHR ''+'',
      cu CHR ''-'', cu CHR ''='', cu CHR ''['', cu CHR '']'', cu CHR ''{'', cu CHR ''}'',
      cu CHR '';'', cu (CHR 0x27), cu CHR '':'', cu (CHR 0x22), cu (CHR 0x5C), cu CHR ''|'',
      cu CHR '','', cu CHR ''.'', cu CHR ''<'', cu CHR ''>'', cu CHR ''/'', cu CHR ''?''}"

definition spec_has_digit :: "js_string \<Rightarrow> bool" where
  "spec_has_digit s \<longleftrightarrow> (\<exists>c \<in> set s. is_digit c)"

definition spec_has_special :: "js_string \<Rightarrow> bool" where
  "spec_has_special s \<longleftrightarrow> (\<exists>c \<in> set s. c \<in> spec_special_chars)"

text \<open>
  The three password checks, each contributing its own message, in the order length,
  number, special.
\<close>

definition spec_password_errors :: "js_string \<Rightarrow> js_string list" where
  "spec_password_errors s =
     (if 8 \<le> length s then []
      else [js_str ''Password must be at least 8 characters long'']) @
     (if spec_has_digit s then []
      else [js_str ''Password must contain at least one number'']) @
     (if spec_has_special s then []
      else [js_str ''Password must contain at least one special character''])"

text \<open>Letters of the basic Latin alphabet.\<close>

definition is_letter :: "code_unit \<Rightarrow> bool" where
  "is_letter c \<longleftrightarrow>
     (cu CHR ''a'' \<le> c \<and> c \<le> cu CHR ''z'') \<or> (cu CHR ''A'' \<le> c \<and> c \<le> cu CHR ''Z'')"

text \<open>The strings of the \<open>ERROR_MESSAGES\<close> table.\<close>

definition error_message_set :: "js_string set" where
  "error_message_set =
     {email_format ERROR_MESSAGES, password_length ERROR_MESSAGES,
      password_number ERROR_MESSAGES, password_special ERROR_MESSAGES,
      phone_format ERROR_MESSAGES}"






definition throwing_object :: "nat js_value" where
  "throwing_object = JOther (\<lambda>st. (Inl RangeError, Suc st))"


section \<open>The matcher decides the language\<close>

lemma in_conc: "w \<in> conc A B \<longleftrightarrow> (\<exists>u v. w = u @ v \<and> u \<in> A \<and> v \<in> B)"
  by (auto simp: conc_def)

lemma nil_in_conc: "[] \<in> conc A B \<longleftrightarrow> [] \<in> A \<and> [] \<in> B"
  by (auto simp: conc_def)

lemma cons_in_conc:
  "c # w \<in> conc A B \<longleftrightarrow>
     (\<exists>u v. w = u @ v \<and> c # u \<in> A \<and> v \<in> B) \<or> ([] \<in> A \<and> c # w \<in> B)"
  by (auto simp: conc_def Cons_eq_append_conv)

lemma cons_in_star:
  "c # w \<in> star A \<longleftrightarrow> (\<exists>u v. w = u @ v \<and> c # u \<in> A \<and> v \<in> star A)"
proof
  assume "c # w \<in> star A"
  then show "\<exists>u v. w = u @ v \<and> c # u \<in> A \<and> v \<in> star A"
  proof (induction "c # w" rule: star.induct)
    case (star_app a x)
    then show ?case by (cases a) auto
  qed
next
  assume "\<exists>u v. w = u @ v \<and> c # u \<in> A \<and> v \<in> star A"
  then obtain u v where "w = u @ v" "c # u \<in> A" "v \<in> star A" by blast
  then show "c # w \<in> star A"
    using star_app [of "c # u" A v] by simp
qed

lemma nullable_lang: "nullable r \<longleftrightarrow> [] \<in> lang r"
  by (induction r) (auto simp: nil_in_conc intro: star_nil)

lemma deriv_lang: "w \<in> lang (deriv c r) \<longleftrightarrow> c # w \<in> lang r"
proof (induction r arbitrary: w)
  case (Seq r1 r2)
  have left: "w \<in> conc (lang (deriv c r1)) (lang r2) \<longleftrightarrow>
      (\<exists>u v. w = u @ v \<and> c # u \<in> lang r1 \<and> v \<in> lang r2)"
    by (simp add: in_conc Seq.IH)
  show ?case
    by (simp add: left cons_in_conc nullable_lang Seq.IH)
next
  case (Star r)
  have "w \<in> conc (lang (deriv c r)) (star (lang r)) \<longleftrightarrow>
      (\<exists>u v. w = u @ v \<and> c # u \<in> lang r \<and> v \<in> star (lang r))"
    by (simp add: in_conc Star.IH)
  then show ?case
    by (simp add: cons_in_star)
qed auto

lemma match_here_full: "match_here True r s \<longleftrightarrow> s \<in> lang r"
  by (induction s arbitrary: r) (auto simp: nullable_lang deriv_lang)

lemma match_here_prefix: "match_here False r s \<longleftrightarrow> (\<exists>p q. s = p @ q \<and> p \<in> lang r)"
proof (induction s arbitrary: r)
  case Nil
  then show ?case by (simp add: nullable_lang)
next
  case (Cons c cs)
  show ?case
  proof
    assume "match_here False r (c # cs)"
    then consider "[] \<in> lang r" | "match_here False (deriv c r) cs"
      by (auto simp: nullable_lang)
    then show "\<exists>p q. c # cs = p @ q \<and> p \<in> lang r"
    proof cases
      case 1
      then show ?thesis by (intro exI [of _ "[]"] exI [of _ "c # cs"]) simp
    next
      case 2
      then obtain p q where "cs = p @ q" "c # p \<in> lang r"
        using Cons.IH [of "deriv c r"] by (auto simp: deriv_lang)
      then show ?thesis by (intro exI [of _ "c # p"] exI [of _ q]) simp
    qed
  next
    assume "\<exists>p q. c # cs = p @ q \<and> p \<in> lang r"
    then obtain p q where pq: "c # cs = p @ q" "p \<in> lang r" by blast
    show "match_here False r (c # cs)"
    proof (cases p)
      case Nil
      with pq have "[] \<in> lang r" by simp
      then show ?thesis by (simp add: nullable_lang)
    next
      case (Cons x xs)
      with pq have "cs = xs @ q" "c # xs \<in> lang r" by auto
      then have "match_here False (deriv c r) cs"
        using Cons.IH [of "deriv c r"] by (auto simp: deriv_lang)
      then show ?thesis by simp
    qed
  qed
qed

lemma search_infix:
  "search False r s \<longleftrightarrow> (\<exists>a p q. s = a @ p @ q \<and> p \<in> lang r)"
proof (induction s)
  case Nil
  then show ?case by (simp add: nullable_lang)
next
  case (Cons c cs)
  show ?case
  proof
    assume "search False r (c # cs)"
    then consider "match_here False r (c # cs)" | "search False r cs" by auto
    then show "\<exists>a p q. c # cs = a @ p @ q \<and> p \<in> lang r"
    proof cases
      case 1
      then obtain p q where "c # cs = p @ q" "p \<in> lang r"
        using match_here_prefix by blast
      then show ?thesis by (intro exI [of _ "[]"] exI [of _ p] exI [of _ q]) simp
    next
      case 2
      then obtain a p q where "cs = a @ p @ q" "p \<in> lang r"
        using Cons.IH by blast
      then show ?thesis by (intro exI [of _ "c # a"] exI [of _ p] exI [of _ q]) simp
    qed
  next
    assume "\<exists>a p q. c # cs = a @ p @ q \<and> p \<in> lang r"
    then obtain a p q where apq: "c # cs = a @ p @ q" "p \<in> lang r" by blast
    show "search False r (c # cs)"
    proof (cases a)
      case Nil
      with apq have "match_here False r (c # cs)"
        using match_here_prefix [of r "c # cs"] by auto
      then show ?thesis by simp
    next
      case (Cons x xs)
      with apq have "cs = xs @ p @ q" by simp
      with apq(2) have "search False r cs" using Cons.IH by blast
      then show ?thesis by simp
    qed
  qed
qed

subsection \<open>Classes under quantifiers\<close>

lemma star_sym: "star {[c] | c. P c} = {w. \<forall>c \<in> set w. P c}"
proof (intro set_eqI iffI)
  fix w assume "w \<in> star {[c] | c. P c}"
  then show "w \<in> {w. \<forall>c \<in> set w. P c}"
    by (induction rule: star.induct) auto
next
  fix w assume "w \<in> {w. \<forall>c \<in> set w. P c}"
  then have "\<forall>c \<in> set w. P c" by simp
  then show "w \<in> star {[c] | c. P c}"
  proof (induction w)
    case Nil
    show ?case by (rule star_nil)
  next
    case (Cons x xs)
    then have "[x] \<in> {[c] | c. P c}" "xs \<in> star {[c] | c. P c}" by auto
    then show ?case using star_app [of "[x]" _ xs] by simp
  qed
qed

lemma conc_sym:
  "w \<in> conc {[c] | c. P c} B \<longleftrightarrow> (\<exists>c v. w = c # v \<and> P c \<and> v \<in> B)"
proof
  assume "w \<in> conc {[c] | c. P c} B"
  then show "\<exists>c v. w = c # v \<and> P c \<and> v \<in> B" by (auto simp: in_conc)
next
  assume "\<exists>c v. w = c # v \<and> P c \<and> v \<in> B"
  then obtain c v where "w = [c] @ v" "P c" "v \<in> B" by auto
  then show "w \<in> conc {[c] | c. P c} B" unfolding in_conc by blast
qed

lemma conc_single: "w \<in> conc {[a]} B \<longleftrightarrow> (\<exists>v. w = a # v \<and> v \<in> B)"
  using conc_sym [of w "\<lambda>c. c = a" B] by simp

lemma search_Sym: "search False (Sym neg as) s \<longleftrightarrow> (\<exists>c \<in> set s. in_class neg as c)"
proof
  assume "search False (Sym neg as) s"
  then obtain a c q where "s = a @ [c] @ q" "in_class neg as c"
    by (auto simp: search_infix)
  then show "\<exists>c \<in> set s. in_class neg as c" by auto
next
  assume "\<exists>c \<in> set s. in_class neg as c"
  then obtain c where c: "c \<in> set s" "in_class neg as c" by blast
  then obtain ys zs where "s = ys @ [c] @ zs"
    by (auto dest: split_list)
  with c(2) show "search False (Sym neg as) s"
    unfolding search_infix by (intro exI [of _ ys] exI [of _ "[c]"] exI [of _ zs]) simp
qed

lemma lang_Plus_Sym:
  "lang (Plus (Sym neg as)) = {w. w \<noteq> [] \<and> (\<forall>c \<in> set w. in_class neg as c)}"
  by (auto simp: Plus_def star_sym conc_sym neq_Nil_conv)

lemma lang_Power_Sym:
  "lang (Power k (Sym neg as)) = {w. length w = k \<and> (\<forall>c \<in> set w. in_class neg as c)}"
proof (induction k)
  case 0
  show ?case by auto
next
  case (Suc k)
  show ?case
    by (auto simp: Suc conc_sym length_Suc_conv)
qed

lemma lang_UpTo_Sym:
  "lang (UpTo k (Sym neg as)) = {w. length w \<le> k \<and> (\<forall>c \<in> set w. in_class neg as c)}"
proof (induction k)
  case 0
  show ?case by auto
next
  case (Suc k)
  have "w \<in> lang (UpTo (Suc k) (Sym neg as)) \<longleftrightarrow>
        length w \<le> Suc k \<and> (\<forall>c \<in> set w. in_class neg as c)" for w
    by (cases w) (auto simp: Suc conc_sym)
  then show ?case by blast
qed

lemma lang_Repeat_Sym:
  "lang (Repeat m n (Sym neg as)) =
     {w. m \<le> length w \<and> length w \<le> n \<and> (\<forall>c \<in> set w. in_class neg as c)}"
proof (cases "m \<le> n")
  case False
  then show ?thesis by (auto simp: Repeat_def)
next
  case True
  have "w \<in> conc (lang (Power m (Sym neg as))) (lang (UpTo (n - m) (Sym neg as))) \<longleftrightarrow>
        m \<le> length w \<and> length w \<le> n \<and> (\<forall>c \<in> set w. in_class neg as c)" for w
  proof
    assume "w \<in> conc (lang (Power m (Sym neg as))) (lang (UpTo (n - m) (Sym neg as)))"
    then obtain u v where "w = u @ v" "length u = m" "length v \<le> n - m"
      "\<forall>c \<in> set u. in_class neg as c" "\<forall>c \<in> set v. in_class neg as c"
      by (auto simp: in_conc lang_Power_Sym lang_UpTo_Sym)
    with True show "m \<le> length w \<and> length w \<le> n \<and> (\<forall>c \<in> set w. in_class neg as c)"
      by auto
  next
    assume w: "m \<le> length w \<and> length w \<le> n \<and> (\<forall>c \<in> set w. in_class neg as c)"
    have "w = take m w @ drop m w" by simp
    moreover from w have "take m w \<in> lang (Power m (Sym neg as))"
      by (auto simp: lang_Power_Sym dest: in_set_takeD)
    moreover from w have "drop m w \<in> lang (UpTo (n - m) (Sym neg as))"
      by (auto simp: lang_UpTo_Sym dest: in_set_dropD)
    ultimately show "w \<in> conc (lang (Power m (Sym neg as))) (lang (UpTo (n - m) (Sym neg as)))"
      unfolding in_conc by blast
  qed
  with True show ?thesis by (auto simp: Repeat_def)
qed

lemma lang_Lit: "lang (Lit c) = {[cu c]}"
  by (auto simp: Lit_def in_class_def)

lemma in_class_chars:
  "in_class False (map (\<lambda>c. ClassChar (cu c)) cs) x \<longleftrightarrow> x \<in> cu ` set cs"
  by (induction cs) (auto simp: in_class_def)

lemma in_class_email: "in_class True [ClassSpace, ClassChar (cu CHR ''@'')] c = email_char c"
  by (auto simp: in_class_def email_char_def)

lemma test_EMAIL_REGEX: "test EMAIL_REGEX s \<longleftrightarrow> spec_email_shape s"
  unfolding test_def EMAIL_REGEX_def spec_email_shape_def
  by (simp add: match_here_full in_conc lang_Plus_Sym lang_Lit in_class_email) blast

lemma test_E164_REGEX: "test E164_REGEX s \<longleftrightarrow> spec_phone_shape s"
  unfolding test_def E164_REGEX_def spec_phone_shape_def
  by (auto simp: match_here_full conc_sym conc_single lang_Repeat_Sym lang_Lit in_class_def)

lemma test_DIGIT_REGEX: "test DIGIT_REGEX s \<longleftrightarrow> (\<exists>c \<in> set s. is_digit c)"
  unfolding test_def DIGIT_REGEX_def
  by (simp add: search_Sym in_class_def)

lemma special_chars_image:
  "spec_special_chars =
     cu ` set [CHR ''!'', CHR ''@'', CHR ''#'', CHR ''$'', CHR ''%'', CHR ''^'', CHR ''&'',
           CHR ''*'', CHR ''('', CHR '')'', CHR ''_'', CHR ''+'', CHR ''-'', CHR ''='',
           CHR ''['', CHR '']'', CHR ''{'', CHR ''}'', CHR '';'', CHR 0x27, CHR '':'',
           CHR 0x22, CHR 0x5C, CHR ''|'', CHR '','', CHR ''.'', CHR ''<'', CHR ''>'',
           CHR ''/'', CHR ''?'']"
  unfolding spec_special_chars_def by (simp only: list.set image_insert image_empty)

lemma test_PASSWORD_SPECIAL_REGEX: "test PASSWORD_SPECIAL_REGEX s \<longleftrightarrow> spec_has_special s"
  unfolding test_def PASSWORD_SPECIAL_REGEX_def spec_has_special_def special_chars_image
  by (simp only: regexp.simps if_False search_Sym in_class_chars)

subsection \<open>Code units of characters\<close>

lemma unat_cu: "unat (cu c) = of_char c"
proof -
  have "cu c = word_of_nat (of_char c)"
    unfolding cu_def by (simp only: of_nat_of_char)
  then have "unat (cu c) = (of_char c :: nat) mod 2 ^ 16"
    by (simp only: unat_of_nat len_bit0 len_num1) simp
  moreover have "(of_char c :: nat) < 2 ^ 16"
  proof -
    have "(of_char c :: nat) < 256" by (rule nat_of_char_less_256)
    also have "(256 :: nat) < 2 ^ 16" by simp
    finally show ?thesis .
  qed
  ultimately show ?thesis by simp
qed

lemma cu_inj: "cu a = cu b \<longleftrightarrow> a = b"
proof
  assume "cu a = cu b"
  then have "unat (cu a) = unat (cu b)" by simp
  then have "(of_char a :: nat) = of_char b" by (simp only: unat_cu)
  then show "a = b" by simp
qed simp

lemma js_str_inj: "js_str a = js_str b \<longleftrightarrow> a = b"
  unfolding js_str_def by (rule inj_map_eq_map) (simp add: inj_on_def cu_inj)

lemma messages:
  "email_format ERROR_MESSAGES = js_str ''Invalid email format''"
  "password_length ERROR_MESSAGES = js_str ''Password must be at least 8 characters long''"
  "password_number ERROR_MESSAGES = js_str ''Password must contain at least one number''"
  "password_special ERROR_MESSAGES =
     js_str ''Password must contain at least one special character''"
  "phone_format ERROR_MESSAGES = js_str ''Invalid phone number format''"
  by (simp_all add: ERROR_MESSAGES_def)

section \<open>Trimming\<close>

lemma strip_right:
  "xs = rev (dropWhile P (rev xs)) @ rev (takeWhile P (rev xs))"
proof -
  have "rev (takeWhile P (rev xs) @ dropWhile P (rev xs)) = rev (rev xs)"
    by (simp only: takeWhile_dropWhile_id)
  then show ?thesis
    by (simp only: rev_append rev_rev_ident)
qed

lemma trim_right:
  "dropWhile is_white_space s =
     trim s @ rev (takeWhile is_white_space (rev (dropWhile is_white_space s)))"
  unfolding trim_def by (rule strip_right)

lemma trim_split:
  "s = takeWhile is_white_space s @ trim s @
       rev (takeWhile is_white_space (rev (dropWhile is_white_space s)))"
proof -
  have "s = takeWhile is_white_space s @ dropWhile is_white_space s"
    by (simp only: takeWhile_dropWhile_id)
  also have "dropWhile is_white_space s =
     trim s @ rev (takeWhile is_white_space (rev (dropWhile is_white_space s)))"
    by (rule trim_right)
  finally show ?thesis .
qed

lemma trim_last: "trim s \<noteq> [] \<Longrightarrow> \<not> is_white_space (last (trim s))"
  unfolding trim_def by (simp add: last_rev hd_dropWhile)

lemma trim_hd:
  assumes ne: "trim s \<noteq> []"
  shows "\<not> is_white_space (hd (trim s))"
proof -
  let ?u = "dropWhile is_white_space s"
  have u: "?u = trim s @ rev (takeWhile is_white_space (rev ?u))"
    by (rule trim_right)
  with ne have "?u \<noteq> []" by (metis append_is_Nil_conv)
  then have "\<not> is_white_space (hd ?u)" by (rule hd_dropWhile)
  moreover from u ne have "hd ?u = hd (trim s)" by (metis hd_append2)
  ultimately show ?thesis by simp
qed

lemma trim_fixed:
  assumes "s = [] \<or> (\<not> is_white_space (hd s) \<and> \<not> is_white_space (last s))"
  shows "trim s = s"
proof -
  from assms have "dropWhile is_white_space s = s"
    by (auto simp: dropWhile_eq_self_iff)
  moreover from assms have "dropWhile is_white_space (rev s) = rev s"
    by (auto simp: dropWhile_eq_self_iff hd_rev)
  ultimately show ?thesis by (simp add: trim_def)
qed



section \<open>The validators on a normalized string\<close>

lemma validateEmail_norm:
  "normalizeInput v st = (Inr s, st') \<Longrightarrow>
   validateEmail v st =
     (Inr (result (if spec_email_shape s then [] else [js_str ''Invalid email format''])), st')"
  by (simp add: validateEmail_def test_EMAIL_REGEX messages Let_def)

lemma validatePhone_norm:
  "normalizeInput v st = (Inr s, st') \<Longrightarrow>
   validatePhone v st =
     (Inr (result (if spec_phone_shape s then []
                   else [js_str ''Invalid phone number format''])), st')"
  by (simp add: validatePhone_def test_E164_REGEX messages Let_def)

lemma validatePassword_norm:
  "normalizeInput v st = (Inr s, st') \<Longrightarrow>
   validatePassword v st = (Inr (result (spec_password_errors s)), st')"
  by (simp add: validatePassword_def test_DIGIT_REGEX test_PASSWORD_SPECIAL_REGEX messages
      spec_password_errors_def spec_has_digit_def Let_def)

lemma validators_throw:
  "normalizeInput v st = (Inl e, st') \<Longrightarrow>
   validateEmail v st = (Inl e, st') \<and> validatePassword v st = (Inl e, st') \<and>
   validatePhone v st = (Inl e, st')"
  by (simp add: validateEmail_def validatePassword_def validatePhone_def)

lemma normalizeInput_cases:
  obtains (throws) e st' where "normalizeInput v st = (Inl e, st')"
  | (returns) s st' where "normalizeInput v st = (Inr s, st')"
proof (cases "normalizeInput v st")
  case (Pair c st')
  then show ?thesis by (cases c) (auto intro: throws returns)
qed

lemma result_valid: "valid (result es) \<longleftrightarrow> errors (result es) = []"
  by (simp add: result_def)

lemma validateEmail_result:
  assumes "validateEmail v st = (Inr r, st')"
  shows "\<exists>s. normalizeInput v st = (Inr s, st') \<and>
       r = result (if spec_email_shape s then [] else [js_str ''Invalid email format''])"
proof (cases v st rule: normalizeInput_cases)
  case (throws e st'')
  with assms show ?thesis using validators_throw [OF throws] by simp
next
  case (returns s st'')
  with assms show ?thesis using validateEmail_norm [OF returns] by simp
qed

lemma validatePhone_result:
  assumes "validatePhone v st = (Inr r, st')"
  shows "\<exists>s. normalizeInput v st = (Inr s, st') \<and>
       r = result (if spec_phone_shape s then [] else [js_str ''Invalid phone number format''])"
proof (cases v st rule: normalizeInput_cases)
  case (throws e st'')
  with assms show ?thesis using validators_throw [OF throws] by simp
next
  case (returns s st'')
  with assms show ?thesis using validatePhone_norm [OF returns] by simp
qed

lemma validatePassword_result:
  assumes "validatePassword v st = (Inr r, st')"
  shows "\<exists>s. normalizeInput v st = (Inr s, st') \<and> r = result (spec_password_errors s)"
proof (cases v st rule: normalizeInput_cases)
  case (throws e st'')
  with assms show ?thesis using validators_throw [OF throws] by simp
next
  case (returns s st'')
  with assms show ?thesis using validatePassword_norm [OF returns] by simp
qed

section \<open>Messages and the whitelist\<close>

lemma plain_not_special:
  "c = cu CHR '' '' \<or> is_letter c \<or> is_digit c \<Longrightarrow> c \<notin> spec_special_chars"
  unfolding spec_special_chars_def is_letter_def is_digit_def cu_def
  by auto

lemma special_message_distinct:
  "js_str ''Password must contain at least one special character'' \<noteq>
     js_str ''Password must be at least 8 characters long''"
  "js_str ''Password must contain at least one special character'' \<noteq>
     js_str ''Password must contain at least one number''"
  "js_str ''Password must be at least 8 characters long'' \<noteq>
     js_str ''Password must contain at least one number''"
  by (simp_all add: js_str_inj)

lemma special_error_iff:
  "js_str ''Password must contain at least one special character''
     \<in> set (spec_password_errors s) \<longleftrightarrow> \<not> spec_has_special s"
  by (simp add: spec_password_errors_def special_message_distinct)

lemma messages_distinct:
  "distinct [js_str ''Invalid email format'',
             js_str ''Password must be at least 8 characters long'',
             js_str ''Password must contain at least one number'',
             js_str ''Password must contain at least one special character'',
             js_str ''Invalid phone number format'']"
  by (simp add: js_str_inj)

lemma error_message_set_literals:
  "error_message_set =
     set [js_str ''Invalid email format'',
          js_str ''Password must be at least 8 characters long'',
          js_str ''Password must contain at least one number'',
          js_str ''Password must contain at least one special character'',
          js_str ''Invalid phone number format'']"
  by (simp add: error_message_set_def messages)

lemma spec_password_errors_table:
  "set (spec_password_errors s) \<subseteq> error_message_set \<and>
   distinct (spec_password_errors s) \<and> length (spec_password_errors s) \<le> 3"
  using messages_distinct
  by (simp add: spec_password_errors_def error_message_set_literals)

lemma email_errors_table:
  assumes "validateEmail v st = (Inr r, st')"
  shows "set (errors r) \<subseteq> error_message_set \<and> distinct (errors r) \<and> length (errors r) \<le> 1"
proof -
  from validateEmail_result [OF assms] obtain s where
    "r = result (if spec_email_shape s then [] else [js_str ''Invalid email format''])"
    by blast
  then show ?thesis
    by (cases "spec_email_shape s") (simp_all add: result_def error_message_set_literals)
qed

lemma phone_errors_table:
  assumes "validatePhone v st = (Inr r, st')"
  shows "set (errors r) \<subseteq> error_message_set \<and> distinct (errors r) \<and> length (errors r) \<le> 1"
proof -
  from validatePhone_result [OF assms] obtain s where
    "r = result (if spec_phone_shape s then [] else [js_str ''Invalid phone number format''])"
    by blast
  then show ?thesis
    by (cases "spec_phone_shape s") (simp_all add: result_def error_message_set_literals)
qed

lemma password_errors_table:
  assumes "validatePassword v st = (Inr r, st')"
  shows "set (errors r) \<subseteq> error_message_set \<and> distinct (errors r) \<and> length (errors r) \<le> 3"
proof -
  from validatePassword_result [OF assms] obtain s where "r = result (spec_password_errors s)"
    by blast
  then have "errors r = spec_password_errors s" by (simp add: result_def)
  then show ?thesis using spec_password_errors_table [of s] by simp
qed

section \<open>Normalization, exceptions and the program state\<close>

lemma normalizeInput_present:
  "v \<noteq> JNull \<Longrightarrow> v \<noteq> JUndefined \<Longrightarrow>
   normalizeInput v st =
     (case String_of v st of
        (Inl e, st') \<Rightarrow> (Inl e, st')
      | (Inr s, st') \<Rightarrow> (Inr (trim s), st'))"
  by (cases v) simp_all

lemma normalizeInput_JString: "normalizeInput (JString s) st = (Inr (trim s), st)"
  by simp





lemma email_char_dot: "email_char (cu CHR ''.'')"
  by (simp add: email_char_def is_white_space_def cu_def)

lemma email_shape_accepted:
  assumes "spec_email_shape s"
  shows "validateEmail (JString s) st = (Inr \<lparr>valid = True, errors = []\<rparr>, st)"
proof -
  from assms obtain a b c where s: "s = a @ [cu CHR ''@''] @ b @ [cu CHR ''.''] @ c"
    and ne: "a \<noteq> []" "c \<noteq> []"
    and ok: "\<forall>x \<in> set a. email_char x" "\<forall>x \<in> set c. email_char x"
    unfolding spec_email_shape_def by blast
  from s ne have "hd s = hd a" "last s = last c" by simp_all
  with ne ok have "\<not> is_white_space (hd s)" "\<not> is_white_space (last s)"
    by (simp_all add: email_char_def)
  then have "trim s = s" by (simp add: trim_fixed)
  then have "normalizeInput (JString s) st = (Inr s, st)" by simp
  from validateEmail_norm [OF this] assms show ?thesis by (simp add: result_def)
qed

text \<open>The validators on a string, with the program state left as it is.\<close>

lemma validateEmail_JString:
  "validateEmail (JString s) st =
     (Inr (result (if test EMAIL_REGEX (trim s) then []
                   else [js_str ''Invalid email format''])), st)"
  using validateEmail_norm [OF normalizeInput_JString, of s st]
  by (simp add: test_EMAIL_REGEX)

lemma validatePhone_JString:
  "validatePhone (JString s) st =
     (Inr (result (if test E164_REGEX (trim s) then []
                   else [js_str ''Invalid phone number format''])), st)"
  using validatePhone_norm [OF normalizeInput_JString, of s st]
  by (simp add: test_E164_REGEX)

lemma validatePassword_JString:
  "validatePassword (JString s) st = (Inr (result (spec_password_errors (trim s))), st)"
  using validatePassword_norm [OF normalizeInput_JString, of s st] by simp






text \<open>The examples of the specification, evaluated.\<close>

lemma example_passwords:
  "spec_password_errors (trim (js_str ''Passw0rd!'')) = []"
  "spec_password_errors (trim (js_str ''Password1_'')) = []"
  by code_simp+

lemma example_emails:
  "test EMAIL_REGEX (trim (js_str ''user@test.com.''))"
  "test EMAIL_REGEX (trim (js_str ''a@b..c''))"
  by code_simp+

section \<open>The claims\<close>

text \<open>
  C1. For every input value and each of \<open>validateEmail\<close>, \<open>validatePassword\<close> and
  \<open>validatePhone\<close>, the returned result has \<open>valid = true\<close> if and only if its
  \<open>errors\<close> list is empty.
\<close>

theorem valid_iff_errors_empty:
  "(validateEmail v st = (Inr r1, st1) \<longrightarrow> (valid r1 \<longleftrightarrow> errors r1 = [])) \<and>
   (validatePassword v st = (Inr r2, st2) \<longrightarrow> (valid r2 \<longleftrightarrow> errors r2 = [])) \<and>
   (validatePhone v st = (Inr r3, st3) \<longrightarrow> (valid r3 \<longleftrightarrow> errors r3 = []))"
proof (intro conjI impI)
  assume "validateEmail v st = (Inr r1, st1)"
  from validateEmail_result [OF this] show "valid r1 \<longleftrightarrow> errors r1 = []"
    using result_valid by blast
next
  assume "validatePassword v st = (Inr r2, st2)"
  from validatePassword_result [OF this] show "valid r2 \<longleftrightarrow> errors r2 = []"
    using result_valid by blast
next
  assume "validatePhone v st = (Inr r3, st3)"
  from validatePhone_result [OF this] show "valid r3 \<longleftrightarrow> errors r3 = []"
    using result_valid by blast
qed

text \<open>The three validators on the string \<open>user@test.com\<close>.\<close>

theorem valid_iff_errors_empty_witness:
  "validateEmail (JString (js_str ''user@test.com'')) (0::nat) =
     (Inr \<lparr>valid = True, errors = []\<rparr>, 0) \<and>
   validatePassword (JString (js_str ''user@test.com'')) (0::nat) =
     (Inr \<lparr>valid = False, errors = [js_str ''Password must contain at least one number'']\<rparr>,
      0) \<and>
   validatePhone (JString (js_str ''user@test.com'')) (0::nat) =
     (Inr \<lparr>valid = False, errors = [js_str ''Invalid phone number format'']\<rparr>, 0) \<and>
   (valid \<lparr>valid = True, errors = []\<rparr> \<longleftrightarrow> errors \<lparr>valid = True, errors = []\<rparr> = []) \<and>
   (valid \<lparr>valid = False, errors = [js_str ''Password must contain at least one number'']\<rparr>
     \<longleftrightarrow> errors \<lparr>valid = False,
          errors = [js_str ''Password must contain at least one number'']\<rparr> = []) \<and>
   (valid \<lparr>valid = False, errors = [js_str ''Invalid phone number format'']\<rparr>
     \<longleftrightarrow> errors \<lparr>valid = False, errors = [js_str ''Invalid phone number format'']\<rparr> = [])"
proof -
  have e: "validateEmail (JString (js_str ''user@test.com'')) (0::nat) =
      (Inr \<lparr>valid = True, errors = []\<rparr>, 0)"
    by code_simp
  have p: "validatePassword (JString (js_str ''user@test.com'')) (0::nat) =
     (Inr \<lparr>valid = False, errors = [js_str ''Password must contain at least one number'']\<rparr>,
      0)"
    by code_simp
  have ph: "validatePhone (JString (js_str ''user@test.com'')) (0::nat) =
     (Inr \<lparr>valid = False, errors = [js_str ''Invalid phone number format'']\<rparr>, 0)"
    by code_simp
  from valid_iff_errors_empty [of "JString (js_str ''user@test.com'')" "0::nat"
      "\<lparr>valid = True, errors = []\<rparr>" 0
      "\<lparr>valid = False, errors = [js_str ''Password must contain at least one number'']\<rparr>" 0
      "\<lparr>valid = False, errors = [js_str ''Invalid phone number format'']\<rparr>" 0] e p ph
  show ?thesis by blast
qed

text \<open>
  C2. On the normalized string \<open>s\<close>, \<open>validatePassword\<close> evaluates the three checks
  (length at least 8, a digit 0 to 9, a whitelisted special character) independently of
  one another, reports the message of each failing check in the order length, number,
  special, and returns \<open>valid = true\<close> only if all three pass.
\<close>

theorem validatePassword_cumulative:
  "normalizeInput v st = (Inr s, st') \<Longrightarrow>
   validatePassword v st =
     (Inr \<lparr>valid = (8 \<le> length s \<and> spec_has_digit s \<and> spec_has_special s),
           errors = spec_password_errors s\<rparr>, st')"
  by (simp add: validatePassword_norm result_def spec_password_errors_def)

text \<open>The password \<open>Pass\<close> fails all three checks and gets all three messages.\<close>

theorem validatePassword_cumulative_witness:
  "normalizeInput (JString (js_str ''Pass'')) (0::nat) = (Inr (js_str ''Pass''), 0) \<and>
   validatePassword (JString (js_str ''Pass'')) (0::nat) =
     (Inr \<lparr>valid = False,
           errors = [js_str ''Password must be at least 8 characters long'',
                     js_str ''Password must contain at least one number'',
                     js_str ''Password must contain at least one special character'']\<rparr>, 0) \<and>
   \<not> (8 \<le> length (js_str ''Pass'') \<and> spec_has_digit (js_str ''Pass'') \<and>
      spec_has_special (js_str ''Pass'')) \<and>
   spec_password_errors (js_str ''Pass'') =
     [js_str ''Password must be at least 8 characters long'',
      js_str ''Password must contain at least one number'',
      js_str ''Password must contain at least one special character'']"
proof -
  have n: "normalizeInput (JString (js_str ''Pass'')) (0::nat) = (Inr (js_str ''Pass''), 0)"
    by code_simp
  have r: "validatePassword (JString (js_str ''Pass'')) (0::nat) =
     (Inr \<lparr>valid = False,
           errors = [js_str ''Password must be at least 8 characters long'',
                     js_str ''Password must contain at least one number'',
                     js_str ''Password must contain at least one special character'']\<rparr>, 0)"
    by code_simp
  from validatePassword_cumulative [OF n] r n show ?thesis by simp
qed

text \<open>
  C3. \<open>validateEmail\<close> returns valid with no errors exactly when the normalized string
  is one or more non-whitespace non-\<open>@\<close> characters, \<open>@\<close>, one or more such
  characters, \<open>.\<close>, one or more such characters; on any other normalized string it
  returns exactly the one error \<open>Invalid email format\<close>.
\<close>

theorem validateEmail_shape:
  "normalizeInput v st = (Inr s, st') \<Longrightarrow>
   (validateEmail v st = (Inr \<lparr>valid = True, errors = []\<rparr>, st') \<longleftrightarrow> spec_email_shape s) \<and>
   (\<not> spec_email_shape s \<longrightarrow>
      validateEmail v st =
        (Inr \<lparr>valid = False, errors = [js_str ''Invalid email format'']\<rparr>, st'))"
  by (simp add: validateEmail_norm result_def)

text \<open>An address that is accepted after trimming, and one that is rejected.\<close>

theorem validateEmail_shape_witness:
  "normalizeInput (JString (js_str ''  user@test.com  '')) (0::nat) =
     (Inr (js_str ''user@test.com''), 0) \<and>
   validateEmail (JString (js_str ''  user@test.com  '')) (0::nat) =
     (Inr \<lparr>valid = True, errors = []\<rparr>, 0) \<and>
   spec_email_shape (js_str ''user@test.com'') \<and>
   normalizeInput (JString (js_str ''user@'')) (0::nat) = (Inr (js_str ''user@''), 0) \<and>
   \<not> spec_email_shape (js_str ''user@'') \<and>
   validateEmail (JString (js_str ''user@'')) (0::nat) =
     (Inr \<lparr>valid = False, errors = [js_str ''Invalid email format'']\<rparr>, 0)"
proof -
  have n1: "normalizeInput (JString (js_str ''  user@test.com  '')) (0::nat) =
      (Inr (js_str ''user@test.com''), 0)"
    by code_simp
  have r1: "validateEmail (JString (js_str ''  user@test.com  '')) (0::nat) =
      (Inr \<lparr>valid = True, errors = []\<rparr>, 0)"
    by code_simp
  have n2: "normalizeInput (JString (js_str ''user@'')) (0::nat) = (Inr (js_str ''user@''), 0)"
    by code_simp
  have r2: "validateEmail (JString (js_str ''user@'')) (0::nat) =
      (Inr \<lparr>valid = False, errors = [js_str ''Invalid email format'']\<rparr>, 0)"
    by code_simp
  from validateEmail_shape [OF n1] r1 have s1: "spec_email_shape (js_str ''user@test.com'')"
    by blast
  from validateEmail_shape [OF n2] r2 have s2: "\<not> spec_email_shape (js_str ''user@'')"
    by auto
  from n1 r1 s1 n2 s2 r2 show ?thesis by blast
qed

text \<open>
  C4. \<open>validatePhone\<close> returns valid with no errors exactly when the normalized string
  is \<open>+\<close>, a first digit in 1 to 9, then between 7 and 14 further digits and nothing
  else; on any other normalized string it returns the one error
  \<open>Invalid phone number format\<close>.
\<close>

theorem validatePhone_shape:
  "normalizeInput v st = (Inr s, st') \<Longrightarrow>
   (validatePhone v st = (Inr \<lparr>valid = True, errors = []\<rparr>, st') \<longleftrightarrow> spec_phone_shape s) \<and>
   (\<not> spec_phone_shape s \<longrightarrow>
      validatePhone v st =
        (Inr \<lparr>valid = False, errors = [js_str ''Invalid phone number format'']\<rparr>, st'))"
  by (simp add: validatePhone_norm result_def)

text \<open>A number that is accepted after trimming, and one with punctuation.\<close>

theorem validatePhone_shape_witness:
  "normalizeInput (JString (js_str ''  +14155552671  '')) (0::nat) =
     (Inr (js_str ''+14155552671''), 0) \<and>
   validatePhone (JString (js_str ''  +14155552671  '')) (0::nat) =
     (Inr \<lparr>valid = True, errors = []\<rparr>, 0) \<and>
   spec_phone_shape (js_str ''+14155552671'') \<and>
   normalizeInput (JString (js_str ''+1(415)555-2671'')) (0::nat) =
     (Inr (js_str ''+1(415)555-2671''), 0) \<and>
   \<not> spec_phone_shape (js_str ''+1(415)555-2671'') \<and>
   validatePhone (JString (js_str ''+1(415)555-2671'')) (0::nat) =
     (Inr \<lparr>valid = False, errors = [js_str ''Invalid phone number format'']\<rparr>, 0)"
proof -
  have n1: "normalizeInput (JString (js_str ''  +14155552671  '')) (0::nat) =
      (Inr (js_str ''+14155552671''), 0)"
    by code_simp
  have r1: "validatePhone (JString (js_str ''  +14155552671  '')) (0::nat) =
      (Inr \<lparr>valid = True, errors = []\<rparr>, 0)"
    by code_simp
  have n2: "normalizeInput (JString (js_str ''+1(415)555-2671'')) (0::nat) =
      (Inr (js_str ''+1(415)555-2671''), 0)"
    by code_simp
  have r2: "validatePhone (JString (js_str ''+1(415)555-2671'')) (0::nat) =
      (Inr \<lparr>valid = False, errors = [js_str ''Invalid phone number format'']\<rparr>, 0)"
    by code_simp
  from validatePhone_shape [OF n1] r1 have s1: "spec_phone_shape (js_str ''+14155552671'')"
    by blast
  from validatePhone_shape [OF n2] r2 have s2: "\<not> spec_phone_shape (js_str ''+1(415)555-2671'')"
    by auto
  from n1 r1 s1 n2 s2 r2 show ?thesis by blast
qed

text \<open>
  C5. The special-character check of \<open>validatePassword\<close> succeeds exactly when the
  normalized string contains a character of the whitelist
  \<open>! @ # $ % ^ & * ( ) _ + - = [ ] { } ; ' : " \ | , . < > / ?\<close>; a string of spaces,
  letters and digits fails it; \<open>Passw0rd!\<close> and \<open>Password1_\<close> are valid with no
  errors.
\<close>

theorem special_check_whitelist:
  "(test PASSWORD_SPECIAL_REGEX s \<longleftrightarrow> (\<exists>c \<in> set s. c \<in> spec_special_chars)) \<and>
   (normalizeInput v st = (Inr s, st') \<longrightarrow> validatePassword v st = (Inr r, st'') \<longrightarrow>
      (js_str ''Password must contain at least one special character'' \<notin> set (errors r)
         \<longleftrightarrow> (\<exists>c \<in> set s. c \<in> spec_special_chars))) \<and>
   ((\<forall>c \<in> set s. c = cu CHR '' '' \<or> is_letter c \<or> is_digit c) \<longrightarrow>
      \<not> test PASSWORD_SPECIAL_REGEX s) \<and>
   validatePassword (JString (js_str ''Passw0rd!'')) st =
     (Inr \<lparr>valid = True, errors = []\<rparr>, st) \<and>
   validatePassword (JString (js_str ''Password1_'')) st =
     (Inr \<lparr>valid = True, errors = []\<rparr>, st)"
proof (intro conjI impI)
  show "test PASSWORD_SPECIAL_REGEX s \<longleftrightarrow> (\<exists>c \<in> set s. c \<in> spec_special_chars)"
    by (simp add: test_PASSWORD_SPECIAL_REGEX spec_has_special_def)
next
  assume n: "normalizeInput v st = (Inr s, st')" and r: "validatePassword v st = (Inr r, st'')"
  from validatePassword_norm [OF n] r have "errors r = spec_password_errors s"
    by (auto simp: result_def)
  then show "js_str ''Password must contain at least one special character''
      \<notin> set (errors r) \<longleftrightarrow> (\<exists>c \<in> set s. c \<in> spec_special_chars)"
    by (simp add: special_error_iff spec_has_special_def)
next
  assume "\<forall>c \<in> set s. c = cu CHR '' '' \<or> is_letter c \<or> is_digit c"
  then have "\<forall>c \<in> set s. c \<notin> spec_special_chars"
    using plain_not_special by blast
  then show "\<not> test PASSWORD_SPECIAL_REGEX s"
    by (simp add: test_PASSWORD_SPECIAL_REGEX spec_has_special_def)
next
  show "validatePassword (JString (js_str ''Passw0rd!'')) st =
      (Inr \<lparr>valid = True, errors = []\<rparr>, st)"
    by (simp add: validatePassword_JString example_passwords result_def)
next
  show "validatePassword (JString (js_str ''Password1_'')) st =
      (Inr \<lparr>valid = True, errors = []\<rparr>, st)"
    by (simp add: validatePassword_JString example_passwords result_def)
qed

text \<open>\<open>Password1\<close> has no special character; \<open>Password1_\<close> has one.\<close>

theorem special_check_whitelist_witness:
  "normalizeInput (JString (js_str ''Password1'')) (0::nat) = (Inr (js_str ''Password1''), 0) \<and>
   validatePassword (JString (js_str ''Password1'')) (0::nat) =
     (Inr \<lparr>valid = False,
           errors = [js_str ''Password must contain at least one special character'']\<rparr>, 0) \<and>
   \<not> test PASSWORD_SPECIAL_REGEX (js_str ''Password1'') \<and>
   \<not> (\<exists>c \<in> set (js_str ''Password1''). c \<in> spec_special_chars) \<and>
   test PASSWORD_SPECIAL_REGEX (js_str ''Password1_'') \<and>
   (\<exists>c \<in> set (js_str ''Password1_''). c \<in> spec_special_chars)"
proof -
  let ?r = "\<lparr>valid = False,
          errors = [js_str ''Password must contain at least one special character'']\<rparr>"
  have n: "normalizeInput (JString (js_str ''Password1'')) (0::nat) =
      (Inr (js_str ''Password1''), 0)"
    by code_simp
  have r: "validatePassword (JString (js_str ''Password1'')) (0::nat) = (Inr ?r, 0)"
    by code_simp
  have t: "test PASSWORD_SPECIAL_REGEX (js_str ''Password1_'')"
    by code_simp
  have m: "js_str ''Password must contain at least one special character'' \<in> set (errors ?r)"
    by simp
  note w1 = special_check_whitelist [of "js_str ''Password1''"
      "JString (js_str ''Password1'')" "0::nat" 0 ?r 0]
  note w2 = special_check_whitelist [of "js_str ''Password1_''" JNull "0::nat" 0 ?r 0]
  from w1 n r m have a: "\<not> (\<exists>c \<in> set (js_str ''Password1''). c \<in> spec_special_chars)"
    by blast
  with w1 have b: "\<not> test PASSWORD_SPECIAL_REGEX (js_str ''Password1'')"
    by blast
  from w2 t have c: "\<exists>c \<in> set (js_str ''Password1_''). c \<in> spec_special_chars"
    by blast
  from n r a b t c show ?thesis by blast
qed

text \<open>
  C6. Every validator normalizes its argument before any check: null and undefined become
  the empty string; a present value is converted to its string form and stripped of the
  white space at both ends (what remains begins and ends with a character that is not
  white space). Each of the three validators runs every one of its checks on that
  normalized string, and returns nothing when the normalization throws.
\<close>

theorem normalization_shared:
  "normalizeInput JNull st = (Inr [], st) \<and> normalizeInput JUndefined st = (Inr [], st) \<and>
   (v \<noteq> JNull \<longrightarrow> v \<noteq> JUndefined \<longrightarrow> String_of v st = (Inr s, st') \<longrightarrow>
      (\<exists>l n r. s = l @ n @ r \<and> normalizeInput v st = (Inr n, st') \<and>
         (\<forall>c \<in> set l. is_white_space c) \<and> (\<forall>c \<in> set r. is_white_space c) \<and>
         (n = [] \<or> (\<not> is_white_space (hd n) \<and> \<not> is_white_space (last n))))) \<and>
   (v \<noteq> JNull \<longrightarrow> v \<noteq> JUndefined \<longrightarrow> String_of v st = (Inl e, st') \<longrightarrow>
      normalizeInput v st = (Inl e, st')) \<and>
   (normalizeInput v st = (Inr n, st') \<longrightarrow>
      validateEmail v st =
        (Inr (result (if test EMAIL_REGEX n then [] else [email_format ERROR_MESSAGES])),
         st') \<and>
      validatePassword v st =
        (Inr (result
           ((if length n < 8 then [password_length ERROR_MESSAGES] else []) @
            (if test DIGIT_REGEX n then [] else [password_number ERROR_MESSAGES]) @
            (if test PASSWORD_SPECIAL_REGEX n then []
             else [password_special ERROR_MESSAGES]))), st') \<and>
      validatePhone v st =
        (Inr (result (if test E164_REGEX n then [] else [phone_format ERROR_MESSAGES])),
         st')) \<and>
   (normalizeInput v st = (Inl e, st') \<longrightarrow>
      validateEmail v st = (Inl e, st') \<and> validatePassword v st = (Inl e, st') \<and>
      validatePhone v st = (Inl e, st'))"
proof (intro conjI impI)
  show "normalizeInput JNull st = (Inr [], st)" "normalizeInput JUndefined st = (Inr [], st)"
    by simp_all
next
  assume v: "v \<noteq> JNull" "v \<noteq> JUndefined" and c: "String_of v st = (Inr s, st')"
  let ?l = "takeWhile is_white_space s"
  let ?r = "rev (takeWhile is_white_space (rev (dropWhile is_white_space s)))"
  have "s = ?l @ trim s @ ?r" by (rule trim_split)
  moreover from c have "normalizeInput v st = (Inr (trim s), st')"
    by (simp add: normalizeInput_present [OF v])
  moreover have "\<forall>c \<in> set ?l. is_white_space c" "\<forall>c \<in> set ?r. is_white_space c"
    by (auto dest: set_takeWhileD)
  moreover have "trim s = [] \<or>
      (\<not> is_white_space (hd (trim s)) \<and> \<not> is_white_space (last (trim s)))"
    using trim_hd trim_last by blast
  ultimately show "\<exists>l n r. s = l @ n @ r \<and> normalizeInput v st = (Inr n, st') \<and>
         (\<forall>c \<in> set l. is_white_space c) \<and> (\<forall>c \<in> set r. is_white_space c) \<and>
         (n = [] \<or> (\<not> is_white_space (hd n) \<and> \<not> is_white_space (last n)))"
    by blast
next
  assume v: "v \<noteq> JNull" "v \<noteq> JUndefined" and c: "String_of v st = (Inl e, st')"
  then show "normalizeInput v st = (Inl e, st')"
    by (simp add: normalizeInput_present [OF v])
next
  assume n: "normalizeInput v st = (Inr n, st')"
  show "validateEmail v st =
        (Inr (result (if test EMAIL_REGEX n then [] else [email_format ERROR_MESSAGES])), st')"
    by (simp add: validateEmail_def n Let_def)
  show "validatePassword v st =
        (Inr (result
           ((if length n < 8 then [password_length ERROR_MESSAGES] else []) @
            (if test DIGIT_REGEX n then [] else [password_number ERROR_MESSAGES]) @
            (if test PASSWORD_SPECIAL_REGEX n then []
             else [password_special ERROR_MESSAGES]))), st')"
    by (simp add: validatePassword_def n Let_def)
  show "validatePhone v st =
        (Inr (result (if test E164_REGEX n then [] else [phone_format ERROR_MESSAGES])), st')"
    by (simp add: validatePhone_def n Let_def)
next
  assume n: "normalizeInput v st = (Inl e, st')"
  from validators_throw [OF n]
  show "validateEmail v st = (Inl e, st')" "validatePassword v st = (Inl e, st')"
    "validatePhone v st = (Inl e, st')"
    by simp_all
qed

text \<open>
  The address with two spaces on each side is validated as the bare address; the object
  whose conversion throws is not validated.
\<close>

theorem normalization_shared_witness:
  "JString (js_str ''  user@test.com  '') \<noteq> (JNull :: nat js_value) \<and>
   JString (js_str ''  user@test.com  '') \<noteq> (JUndefined :: nat js_value) \<and>
   String_of (JString (js_str ''  user@test.com  '')) (0::nat) =
     (Inr (js_str ''  user@test.com  ''), 0) \<and>
   normalizeInput (JString (js_str ''  user@test.com  '')) (0::nat) =
     (Inr (js_str ''user@test.com''), 0) \<and>
   (\<exists>l n r. js_str ''  user@test.com  '' = l @ n @ r \<and>
      normalizeInput (JString (js_str ''  user@test.com  '')) (0::nat) = (Inr n, 0) \<and>
      (\<forall>c \<in> set l. is_white_space c) \<and> (\<forall>c \<in> set r. is_white_space c) \<and>
      (n = [] \<or> (\<not> is_white_space (hd n) \<and> \<not> is_white_space (last n)))) \<and>
   validateEmail (JString (js_str ''  user@test.com  '')) (0::nat) =
     (Inr \<lparr>valid = True, errors = []\<rparr>, 0) \<and>
   validatePassword (JString (js_str ''  user@test.com  '')) (0::nat) =
     (Inr \<lparr>valid = False, errors = [js_str ''Password must contain at least one number'']\<rparr>,
      0) \<and>
   validatePhone (JString (js_str ''  user@test.com  '')) (0::nat) =
     (Inr \<lparr>valid = False, errors = [js_str ''Invalid phone number format'']\<rparr>, 0) \<and>
   throwing_object \<noteq> JNull \<and> throwing_object \<noteq> JUndefined \<and>
   String_of throwing_object 0 = (Inl RangeError, 1) \<and>
   normalizeInput throwing_object 0 = (Inl RangeError, 1) \<and>
   validateEmail throwing_object 0 = (Inl RangeError, 1) \<and>
   validatePassword throwing_object 0 = (Inl RangeError, 1) \<and>
   validatePhone throwing_object 0 = (Inl RangeError, 1)"
proof -
  let ?v = "JString (js_str ''  user@test.com  '') :: nat js_value"
  let ?n = "js_str ''user@test.com''"
  have n1: "normalizeInput ?v 0 = (Inr ?n, 0)"
    by code_simp
  have s: "String_of ?v 0 = (Inr (js_str ''  user@test.com  ''), 0)"
    by simp
  have d: "?v \<noteq> JNull" "?v \<noteq> JUndefined" "throwing_object \<noteq> JNull"
    "throwing_object \<noteq> JUndefined"
    by (simp_all add: throwing_object_def)
  have t: "String_of throwing_object 0 = (Inl RangeError, 1)"
    by (simp add: throwing_object_def)
  have tests: "test EMAIL_REGEX ?n" "\<not> length ?n < 8" "\<not> test DIGIT_REGEX ?n"
    "test PASSWORD_SPECIAL_REGEX ?n" "\<not> test E164_REGEX ?n"
    by code_simp+
  note w1 = normalization_shared [of "0::nat" ?v "js_str ''  user@test.com  ''" 0 TypeError ?n]
  note w2 = normalization_shared [of "0::nat" throwing_object "[]" 1 RangeError "[]"]
  from w1 d s have a: "\<exists>l n r. js_str ''  user@test.com  '' = l @ n @ r \<and>
      normalizeInput ?v 0 = (Inr n, 0) \<and>
      (\<forall>c \<in> set l. is_white_space c) \<and> (\<forall>c \<in> set r. is_white_space c) \<and>
      (n = [] \<or> (\<not> is_white_space (hd n) \<and> \<not> is_white_space (last n)))"
    by blast
  from w1 n1 tests have b: "validateEmail ?v 0 = (Inr \<lparr>valid = True, errors = []\<rparr>, 0)"
    "validatePassword ?v 0 =
      (Inr \<lparr>valid = False, errors = [js_str ''Password must contain at least one number'']\<rparr>,
       0)"
    "validatePhone ?v 0 =
      (Inr \<lparr>valid = False, errors = [js_str ''Invalid phone number format'']\<rparr>, 0)"
    by (simp_all add: result_def messages)
  from w2 d t have c: "normalizeInput throwing_object 0 = (Inl RangeError, 1)"
    by blast
  with w2 have e: "validateEmail throwing_object 0 = (Inl RangeError, 1)"
    "validatePassword throwing_object 0 = (Inl RangeError, 1)"
    "validatePhone throwing_object 0 = (Inl RangeError, 1)"
    by blast+
  from d s n1 a b t c e show ?thesis by blast
qed







text \<open>
  C9. Every string in a returned \<open>errors\<close> list is one of the five strings of the
  \<open>ERROR_MESSAGES\<close> table, no string occurs twice in one result, and the list has at
  most one element for \<open>validateEmail\<close> and \<open>validatePhone\<close> and at most three for
  \<open>validatePassword\<close>.
\<close>

theorem errors_from_table:
  "(validateEmail v st = (Inr r1, st1) \<longrightarrow>
      set (errors r1) \<subseteq> error_message_set \<and> distinct (errors r1) \<and> length (errors r1) \<le> 1) \<and>
   (validatePassword v st = (Inr r2, st2) \<longrightarrow>
      set (errors r2) \<subseteq> error_message_set \<and> distinct (errors r2) \<and> length (errors r2) \<le> 3) \<and>
   (validatePhone v st = (Inr r3, st3) \<longrightarrow>
      set (errors r3) \<subseteq> error_message_set \<and> distinct (errors r3) \<and> length (errors r3) \<le> 1) \<and>
   card error_message_set = 5"
proof (intro conjI impI)
  show "card error_message_set = 5"
    unfolding error_message_set_literals using distinct_card [OF messages_distinct] by simp
next
  assume r: "validateEmail v st = (Inr r1, st1)"
  from email_errors_table [OF r]
  show "set (errors r1) \<subseteq> error_message_set" "distinct (errors r1)" "length (errors r1) \<le> 1"
    by simp_all
next
  assume r: "validatePassword v st = (Inr r2, st2)"
  from password_errors_table [OF r]
  show "set (errors r2) \<subseteq> error_message_set" "distinct (errors r2)" "length (errors r2) \<le> 3"
    by simp_all
next
  assume r: "validatePhone v st = (Inr r3, st3)"
  from phone_errors_table [OF r]
  show "set (errors r3) \<subseteq> error_message_set" "distinct (errors r3)" "length (errors r3) \<le> 1"
    by simp_all
qed

text \<open>The three validators on \<open>null\<close>.\<close>

theorem errors_from_table_witness:
  "validateEmail JNull (0::nat) =
     (Inr \<lparr>valid = False, errors = [js_str ''Invalid email format'']\<rparr>, 0) \<and>
   validatePassword JNull (0::nat) =
     (Inr \<lparr>valid = False,
           errors = [js_str ''Password must be at least 8 characters long'',
                     js_str ''Password must contain at least one number'',
                     js_str ''Password must contain at least one special character'']\<rparr>, 0) \<and>
   validatePhone JNull (0::nat) =
     (Inr \<lparr>valid = False, errors = [js_str ''Invalid phone number format'']\<rparr>, 0) \<and>
   set [js_str ''Invalid email format''] \<subseteq> error_message_set \<and>
   set [js_str ''Password must be at least 8 characters long'',
        js_str ''Password must contain at least one number'',
        js_str ''Password must contain at least one special character'']
     \<subseteq> error_message_set \<and>
   distinct [js_str ''Password must be at least 8 characters long'',
        js_str ''Password must contain at least one number'',
        js_str ''Password must contain at least one special character''] \<and>
   set [js_str ''Invalid phone number format''] \<subseteq> error_message_set"
proof -
  let ?r1 = "\<lparr>valid = False, errors = [js_str ''Invalid email format'']\<rparr>"
  let ?r2 = "\<lparr>valid = False,
          errors = [js_str ''Password must be at least 8 characters long'',
                    js_str ''Password must contain at least one number'',
                    js_str ''Password must contain at least one special character'']\<rparr>"
  let ?r3 = "\<lparr>valid = False, errors = [js_str ''Invalid phone number format'']\<rparr>"
  have e: "validateEmail JNull (0::nat) = (Inr ?r1, 0)" by code_simp
  have p: "validatePassword JNull (0::nat) = (Inr ?r2, 0)" by code_simp
  have ph: "validatePhone JNull (0::nat) = (Inr ?r3, 0)" by code_simp
  from errors_from_table [of JNull "0::nat" ?r1 0 ?r2 0 ?r3 0] e p ph
  show ?thesis by simp
qed

text \<open>
  C10. \<open>validateEmail\<close> accepts addresses whose part after the \<open>@\<close> has extra dots
  anywhere, since \<open>.\<close> is itself a non-whitespace non-\<open>@\<close> character:
  \<open>user@test.com.\<close> and \<open>a@b..c\<close> are valid with no errors, and so is every
  \<open>a@b.c\<close> whose non-empty parts \<open>a\<close>, \<open>b\<close>, \<open>c\<close> consist of dots and other
  non-whitespace non-\<open>@\<close> characters.
\<close>

theorem email_extra_dots:
  "validateEmail (JString (js_str ''user@test.com.'')) st =
     (Inr \<lparr>valid = True, errors = []\<rparr>, st) \<and>
   validateEmail (JString (js_str ''a@b..c'')) st = (Inr \<lparr>valid = True, errors = []\<rparr>, st) \<and>
   email_char (cu CHR ''.'') \<and>
   (a \<noteq> [] \<longrightarrow> b \<noteq> [] \<longrightarrow> c \<noteq> [] \<longrightarrow>
    (\<forall>x \<in> set (a @ b @ c). x = cu CHR ''.'' \<or> email_char x) \<longrightarrow>
      validateEmail (JString (a @ [cu CHR ''@''] @ b @ [cu CHR ''.''] @ c)) st =
        (Inr \<lparr>valid = True, errors = []\<rparr>, st))"
proof (intro conjI impI)
  show "validateEmail (JString (js_str ''user@test.com.'')) st =
      (Inr \<lparr>valid = True, errors = []\<rparr>, st)"
    by (simp add: validateEmail_JString example_emails result_def)
  show "validateEmail (JString (js_str ''a@b..c'')) st =
      (Inr \<lparr>valid = True, errors = []\<rparr>, st)"
    by (simp add: validateEmail_JString example_emails result_def)
  show "email_char (cu CHR ''.'')" by (rule email_char_dot)
next
  assume ne: "a \<noteq> []" "b \<noteq> []" "c \<noteq> []"
    and dots: "\<forall>x \<in> set (a @ b @ c). x = cu CHR ''.'' \<or> email_char x"
  have "\<forall>x \<in> set (a @ b @ c). email_char x"
  proof
    fix x assume "x \<in> set (a @ b @ c)"
    with dots have "x = cu CHR ''.'' \<or> email_char x" by (rule bspec)
    then show "email_char x" using email_char_dot by (elim disjE) simp_all
  qed
  with ne have "spec_email_shape (a @ [cu CHR ''@''] @ b @ [cu CHR ''.''] @ c)"
    unfolding spec_email_shape_def by auto
  then show "validateEmail (JString (a @ [cu CHR ''@''] @ b @ [cu CHR ''.''] @ c)) st =
        (Inr \<lparr>valid = True, errors = []\<rparr>, st)"
    by (rule email_shape_accepted)
qed

text \<open>The address \<open>.a@.b..c.\<close>, with dots in every position.\<close>

theorem email_extra_dots_witness:
  "js_str ''.a'' \<noteq> [] \<and> js_str ''.b.'' \<noteq> [] \<and> js_str ''c.'' \<noteq> [] \<and>
   list_all (\<lambda>x. x = cu CHR ''.'' \<or> email_char x) (js_str ''.a'' @ js_str ''.b.'' @ js_str ''c.'') \<and>
   validateEmail (JString (js_str ''.a'' @ [cu CHR ''@''] @ js_str ''.b.'' @ [cu CHR ''.''] @
       js_str ''c.'')) (0::nat) = (Inr \<lparr>valid = True, errors = []\<rparr>, 0) \<and>
   js_str ''.a'' @ [cu CHR ''@''] @ js_str ''.b.'' @ [cu CHR ''.''] @ js_str ''c.'' =
     js_str ''.a@.b..c.''"
proof -
  have h: "list_all (\<lambda>x. x = cu CHR ''.'' \<or> email_char x)
      (js_str ''.a'' @ js_str ''.b.'' @ js_str ''c.'')"
    by code_simp
  have ne: "js_str ''.a'' \<noteq> []" "js_str ''.b.'' \<noteq> []" "js_str ''c.'' \<noteq> []"
    by (simp_all add: js_str_def)
  have eq: "js_str ''.a'' @ [cu CHR ''@''] @ js_str ''.b.'' @ [cu CHR ''.''] @ js_str ''c.'' =
     js_str ''.a@.b..c.''"
    by (simp add: js_str_def)
  from h have h': "\<forall>x \<in> set (js_str ''.a'' @ js_str ''.b.'' @ js_str ''c.'').
      x = cu CHR ''.'' \<or> email_char x"
    by (simp only: list_all_iff)
  from email_extra_dots [of "0::nat" "js_str ''.a''" "js_str ''.b.''" "js_str ''c.''"] ne h'
  have "validateEmail (JString (js_str ''.a'' @ [cu CHR ''@''] @ js_str ''.b.'' @
      [cu CHR ''.''] @ js_str ''c.'')) (0::nat) = (Inr \<lparr>valid = True, errors = []\<rparr>, 0)"
    by blast
  with ne h eq show ?thesis by blast
qed

end
